theory Spec2Isabelle
  imports Complex_Main "HOL-Library.Multiset" "HOL-Library.Log_Nat"
begin

section \<open>Top searchers by profit: the script and the table operations it calls\<close>

text \<open>
  The script \<^verbatim>\<open>top-searcher-by-type\<close> has three functions and a main block. Each
  function is one call chain over a polars table. polars is a third-party library, so
  every operation the script calls is given here as a HOL function of its own, and the
  script's functions are the same chains over them.

  A table is the list of its rows, in row order. A cell may be null: a nullable column
  has an \<open>option\<close> type and \<open>None\<close> is the null cell.
\<close>

subsection \<open>Rows\<close>

text \<open>
  A row of the bundle table. The script reads three of its columns; the table may have
  more, which the record's extension carries. \<open>profit_usd\<close> is numeric: the type
  \<open>'n\<close> is the column's number type, with its zero, its addition and its order. It
  may be an exact type (\<open>int\<close>, \<open>rat\<close>) or the type \<open>float64\<close> below, whose addition
  rounds.
\<close>

record 'n bundle_row =
  mev_type :: "string option"
  mev_contract :: "string option"
  profit_usd :: "'n option"

text \<open>
  A row of the table the aggregation returns: the grouping key and the column that
  \<^verbatim>\<open>alias("total_profit_usd")\<close> names.
\<close>

record 'n searcher_row =
  mev_contract :: "string option"
  total_profit_usd :: "'n"

subsection \<open>Float64 columns\<close>

text \<open>
  A \<^verbatim>\<open>Float64\<close> cell is an IEEE 754 binary64 number. \<open>float64\<close> gives such a number by
  the rational it denotes. Its addition is the exact sum rounded to the nearest number
  with a significand of 53 bits, a tie going to the even significand. Infinities, NaN
  and the limits of the exponent are left out: the model is of finite numbers of
  ordinary size.
\<close>

definition round_half_even :: "rat \<Rightarrow> int" where
  "round_half_even q =
     (let f = \<lfloor>q\<rfloor>; d = q - of_int f
      in if d < 1 / 2 then f else if 1 / 2 < d then f + 1 else if even f then f else f + 1)"

definition pow2 :: "int \<Rightarrow> rat" where
  "pow2 e = (if 0 \<le> e then 2 ^ nat e else 1 / 2 ^ nat (- e))"

text \<open>The exponent \<open>e\<close> of a number \<open>x \<noteq> 0\<close>: \<open>2 ^ e \<le> \<bar>x\<bar> < 2 ^ (e + 1)\<close>.\<close>

definition exponent :: "rat \<Rightarrow> int" where
  "exponent x =
     (let (p, q) = quotient_of \<bar>x\<bar>;
          e = bitlen p - bitlen q
      in if pow2 e \<le> \<bar>x\<bar> then e else e - 1)"

definition round53 :: "rat \<Rightarrow> rat" where
  "round53 x =
     (if x = 0 then 0
      else let ulp = pow2 (exponent x - 52)
           in of_int (round_half_even (x / ulp)) * ulp)"

datatype float64 = Float64 (rat_of: rat)

instantiation float64 :: "{zero, plus, linorder}"
begin

definition zero_float64 :: float64 where
  "zero_float64 = Float64 0"

definition plus_float64 :: "float64 \<Rightarrow> float64 \<Rightarrow> float64" where
  "plus_float64 a b = Float64 (round53 (rat_of a + rat_of b))"

definition less_eq_float64 :: "float64 \<Rightarrow> float64 \<Rightarrow> bool" where
  "less_eq_float64 a b \<longleftrightarrow> rat_of a \<le> rat_of b"

definition less_float64 :: "float64 \<Rightarrow> float64 \<Rightarrow> bool" where
  "less_float64 a b \<longleftrightarrow> rat_of a < rat_of b"

instance
  by standard (auto simp: less_eq_float64_def less_float64_def float64.expand)

end

text \<open>The binary64 number that a decimal literal denotes: the nearest one.\<close>

definition float64_of :: "rat \<Rightarrow> float64" where
  "float64_of q = Float64 (round53 q)"

subsection \<open>The polars operations of the filter\<close>

text \<open>
  Modelled from the spec: the null policy of polars' \<^verbatim>\<open>Expr.is_in\<close>, which is code of the
  library and not of this repository. The spec records that a missing cell "is not
  equal to either excluded string": on a null cell the membership test is false, on
  any other cell it is membership in the list.
\<close>

definition is_in :: "'a option \<Rightarrow> 'a list \<Rightarrow> bool option" where
  "is_in v members =
     (case v of None \<Rightarrow> Some False | Some x \<Rightarrow> Some (x \<in> set members))"

text \<open>The operator \<^verbatim>\<open>~\<close> on a boolean expression: negation, null on null.\<close>

definition invert :: "bool option \<Rightarrow> bool option" where
  "invert b = map_option Not b"

text \<open>
  \<^verbatim>\<open>DataFrame.filter\<close>: the rows on which the predicate is true, in their order. A row
  on which the predicate is false or null is dropped.
\<close>

definition filter_df :: "('r \<Rightarrow> bool option) \<Rightarrow> 'r list \<Rightarrow> 'r list" where
  "filter_df predicate df = filter (\<lambda>r. predicate r = Some True) df"

subsection \<open>The polars operations of the aggregation\<close>

text \<open>
  \<^verbatim>\<open>unique\<close>: the distinct values of a column, each at its first occurrence.
\<close>

definition unique :: "'k list \<Rightarrow> 'k list" where
  "unique ks = rev (remdups (rev ks))"

text \<open>
  \<^verbatim>\<open>DataFrame.groupby\<close>: one group per distinct key, holding the rows with that key in
  row order. A null key is a key like any other. The script does not pass
  \<^verbatim>\<open>maintain_order=True\<close>, so the library returns the groups in an order of its own
  choosing. That choice is the parameter \<open>ord\<close>: it rearranges the distinct keys, and
  \<open>group_order_ok\<close> says that it neither drops nor repeats one.
\<close>

type_synonym 'k group_order = "'k list \<Rightarrow> 'k list"

definition group_order_ok :: "'k group_order \<Rightarrow> bool" where
  "group_order_ok ord \<longleftrightarrow> (\<forall>ks. mset (ord ks) = mset ks)"

definition groupby :: "'k group_order \<Rightarrow> ('r \<Rightarrow> 'k) \<Rightarrow> 'r list \<Rightarrow> ('k \<times> 'r list) list" where
  "groupby ord key df =
     map (\<lambda>k. (k, filter (\<lambda>r. key r = k) df)) (ord (unique (map key df)))"

text \<open>
  Modelled from the spec: the null policy of polars' \<^verbatim>\<open>Expr.sum\<close>, which is code of the
  library and not of this repository. The spec records "nulls treated as 0 for summation
  purposes": a null cell adds nothing, so a column of nulls only sums to 0.
\<close>

fun sum_col :: "('n::{zero, plus}) option list \<Rightarrow> 'n" where
  "sum_col [] = 0"
| "sum_col (None # vs) = sum_col vs"
| "sum_col (Some v # vs) = v + sum_col vs"

text \<open>
  \<^verbatim>\<open>agg([pl.col(c).sum().alias("total_profit_usd")])\<close> on the groups: one row per group,
  the key and the sum of column \<open>c\<close> over the group's rows.
\<close>

definition agg :: "('r \<Rightarrow> ('n::{zero, plus}) option) \<Rightarrow> (string option \<times> 'r list) list
    \<Rightarrow> 'n searcher_row list" where
  "agg c groups =
     map (\<lambda>(k, rows). \<lparr>mev_contract = k, total_profit_usd = sum_col (map c rows)\<rparr>) groups"

text \<open>
  The row that \<open>agg\<close> returns for the group of key \<open>k\<close>: the key, and the sum of column
  \<open>c\<close> over the rows of \<open>df\<close> that have this key. Lemma \<open>agg_groupby\<close> below states
  \<open>agg\<close> after \<open>groupby\<close> with it.
\<close>

definition group_row :: "('r \<Rightarrow> string option) \<Rightarrow> ('r \<Rightarrow> ('n::{zero, plus}) option)
    \<Rightarrow> 'r list \<Rightarrow> string option \<Rightarrow> 'n searcher_row" where
  "group_row key c df k =
     \<lparr>mev_contract = k, total_profit_usd = sum_col (map c (filter (\<lambda>r. key r = k) df))\<rparr>"

text \<open>
  \<^verbatim>\<open>DataFrame.sort(col, reverse)\<close>: a stable sort by one column, ascending, or descending
  when \<open>reverse\<close> is set; rows with equal values keep their order.
\<close>

definition sort_df :: "('r \<Rightarrow> 'n::linorder) \<Rightarrow> bool \<Rightarrow> 'r list \<Rightarrow> 'r list" where
  "sort_df col reverse df =
     (if reverse then rev (sort_key col (rev df)) else sort_key col df)"

text \<open>\<^verbatim>\<open>DataFrame.head(n)\<close>: the first \<open>n\<close> rows, or all of them when there are fewer.\<close>

definition head :: "nat \<Rightarrow> 'r list \<Rightarrow> 'r list" where
  "head n df = take n df"

subsection \<open>The script's functions\<close>

text \<open>
  \<^verbatim>\<open>bundles_df.filter(~pl.col("mev_type").is_in(["SearcherTx", "Unknown"]))\<close>
\<close>

definition filter_mev_types :: "('n, 'z) bundle_row_scheme list \<Rightarrow> ('n, 'z) bundle_row_scheme list" where
  "filter_mev_types bundles_df =
     filter_df (\<lambda>r. invert (is_in (mev_type r) [''SearcherTx'', ''Unknown''])) bundles_df"

text \<open>
  \<^verbatim>\<open>bundles_df.groupby("mev_contract").agg([pl.col("profit_usd").sum()
     .alias("total_profit_usd")]).sort("total_profit_usd", reverse=True).head(30)\<close>
\<close>

definition get_top_searchers_by_pnl :: "string option group_order
    \<Rightarrow> ('n::{zero, plus, linorder}, 'z) bundle_row_scheme list \<Rightarrow> 'n searcher_row list" where
  "get_top_searchers_by_pnl ord bundles_df =
     head 30 (sort_df total_profit_usd True
       (agg profit_usd (groupby ord bundle_row.mev_contract bundles_df)))"

text \<open>
  The aggregation's result read as an input of the aggregation: the column
  \<open>total_profit_usd\<close> is renamed to \<open>profit_usd\<close>, \<open>mev_contract\<close> stays the key, and
  there is no \<open>mev_type\<close> column (the aggregation never reads one).
\<close>

definition as_bundles :: "'n searcher_row list \<Rightarrow> 'n bundle_row list" where
  "as_bundles top_searchers =
     map (\<lambda>r. \<lparr>mev_type = None, mev_contract = searcher_row.mev_contract r,
               profit_usd = Some (total_profit_usd r)\<rparr>) top_searchers"

subsection \<open>Loading and the main block\<close>

text \<open>
  What is stored at a path: nothing, bytes that are not a parquet file, or a parquet
  file holding a table. \<^verbatim>\<open>pl.read_parquet\<close> raises on the first two.
\<close>

datatype 'a parquet_file = Missing | Malformed | Parquet 'a

datatype error = FileNotFoundError | ParquetError

fun read_parquet :: "'a parquet_file \<Rightarrow> error + 'a" where
  "read_parquet Missing = Inl FileNotFoundError"
| "read_parquet Malformed = Inl ParquetError"
| "read_parquet (Parquet df) = Inr df"

text \<open>\<open>read_data\<close> reads the block file first, then the bundle file.\<close>

definition read_data :: "'b parquet_file \<Rightarrow> 'r parquet_file \<Rightarrow> error + ('b \<times> 'r)" where
  "read_data path_to_blocks path_to_bundles =
     (case read_parquet path_to_blocks of
        Inl e \<Rightarrow> Inl e
      | Inr blocks_df \<Rightarrow>
          (case read_parquet path_to_bundles of
             Inl e \<Rightarrow> Inl e
           | Inr bundles_df \<Rightarrow> Inr (blocks_df, bundles_df)))"

text \<open>
  What \<^verbatim>\<open>print\<close> receives: a string, or a table. A run of the main block ends with an
  error, or with the filtered table it computed and the values it printed.
\<close>

datatype 'n printed = Line string | Frame "'n searcher_row list"

record ('r, 'n) run =
  filtered_bundles :: "'r list"
  stdout :: "'n printed list"

text \<open>
  The main block. Its two arguments are what is stored at the two paths the script
  names, \<^verbatim>\<open>../db/parquet/block_table.parquet\<close> and
  \<^verbatim>\<open>../db/parquet/bundle_table.parquet\<close>.
\<close>

definition main :: "string option group_order \<Rightarrow> 'b parquet_file
    \<Rightarrow> ('n::{zero, plus, linorder}, 'z) bundle_row_scheme list parquet_file
    \<Rightarrow> error + (('n, 'z) bundle_row_scheme, 'n) run" where
  "main ord block_table bundle_table =
     (case read_data block_table bundle_table of
        Inl e \<Rightarrow> Inl e
      | Inr (blocks_df, bundles_df) \<Rightarrow>
          (let filtered_bundles_df = filter_mev_types bundles_df;
               top_searchers_by_pnl = get_top_searchers_by_pnl ord filtered_bundles_df
           in Inr \<lparr>filtered_bundles = filtered_bundles_df,
                   stdout = [Line ''Top 30 Searchers by PNL (excluding SearcherTx and Unknown MEV types):'',
                             Frame top_searchers_by_pnl]\<rparr>))"

subsection \<open>Sample tables\<close>

text \<open>
  The bundle table of the specification's worked example; a table with null cells in
  each of the three columns and two groups of equal total; and a table with a
  \<^verbatim>\<open>Float64\<close> profit column, profits -0.91, -10.1, 30.32 and 57.74.
\<close>

definition example_bundles :: "int bundle_row list" where
  "example_bundles =
     [\<lparr>mev_type = Some ''Backrun'', mev_contract = Some ''A'', profit_usd = Some 10\<rparr>,
      \<lparr>mev_type = Some ''Backrun'', mev_contract = Some ''A'', profit_usd = Some 5\<rparr>,
      \<lparr>mev_type = Some ''Liquidation'', mev_contract = Some ''B'', profit_usd = Some 100\<rparr>,
      \<lparr>mev_type = Some ''SearcherTx'', mev_contract = Some ''C'', profit_usd = Some 1000\<rparr>,
      \<lparr>mev_type = Some ''Unknown'', mev_contract = Some ''D'', profit_usd = Some 500\<rparr>]"

definition example_nulls :: "int bundle_row list" where
  "example_nulls =
     [\<lparr>mev_type = None, mev_contract = Some ''A'', profit_usd = None\<rparr>,
      \<lparr>mev_type = Some ''Backrun'', mev_contract = None, profit_usd = Some 7\<rparr>,
      \<lparr>mev_type = Some ''Backrun'', mev_contract = Some ''B'', profit_usd = Some (- 2)\<rparr>,
      \<lparr>mev_type = None, mev_contract = None, profit_usd = None\<rparr>,
      \<lparr>mev_type = Some ''Liquidation'', mev_contract = Some ''B'', profit_usd = Some 9\<rparr>]"

definition example_floats :: "float64 bundle_row list" where
  "example_floats =
     [\<lparr>mev_type = Some ''Backrun'', mev_contract = Some ''A'',
        profit_usd = Some (float64_of (- 91 / 100))\<rparr>,
      \<lparr>mev_type = Some ''Backrun'', mev_contract = Some ''B'',
        profit_usd = Some (float64_of (- 101 / 10))\<rparr>,
      \<lparr>mev_type = Some ''Backrun'', mev_contract = Some ''A'',
        profit_usd = Some (float64_of (3032 / 100))\<rparr>,
      \<lparr>mev_type = Some ''Backrun'', mev_contract = Some ''B'',
        profit_usd = Some (float64_of (5774 / 100))\<rparr>]"

section \<open>The filter\<close>

lemma keeps_iff:
  "invert (is_in v [''SearcherTx'', ''Unknown'']) = Some True
     \<longleftrightarrow> v \<noteq> Some ''SearcherTx'' \<and> v \<noteq> Some ''Unknown''"
  by (cases v) (auto simp: invert_def is_in_def)

lemma filter_mev_types_eq:
  "filter_mev_types df =
     filter (\<lambda>r. mev_type r \<noteq> Some ''SearcherTx'' \<and> mev_type r \<noteq> Some ''Unknown'') df"
  by (simp add: filter_mev_types_def filter_df_def keeps_iff)

text \<open>
  C1. A row of the bundle table whose \<open>mev_type\<close> is null is a row of the filtered
  table; it is there as many times as in the input.
\<close>

theorem null_mev_type_retained:
  assumes "r \<in> set bundles_df" and "mev_type r = None"
  shows "r \<in> set (filter_mev_types bundles_df)
    \<and> count (mset (filter_mev_types bundles_df)) r = count (mset bundles_df) r"
proof
  have keep: "mev_type r \<noteq> Some ''SearcherTx'' \<and> mev_type r \<noteq> Some ''Unknown''"
    using assms(2) by simp
  show "r \<in> set (filter_mev_types bundles_df)"
    using assms(1) keep by (simp add: filter_mev_types_eq)
  have "filter ((=) r) (filter_mev_types bundles_df) = filter ((=) r) bundles_df"
    unfolding filter_mev_types_eq filter_filter
    by (rule filter_cong) (use keep in auto)
  then show "count (mset (filter_mev_types bundles_df)) r = count (mset bundles_df) r"
    by (simp add: count_mset count_list_eq_length_filter)
qed

theorem null_mev_type_retained_witness:
  "\<lparr>mev_type = None, mev_contract = Some ''B'', profit_usd = Some (2::int)\<rparr>
     \<in> set [\<lparr>mev_type = Some ''Unknown'', mev_contract = Some ''A'', profit_usd = Some 1\<rparr>,
             \<lparr>mev_type = None, mev_contract = Some ''B'', profit_usd = Some 2\<rparr>]
   \<and> mev_type \<lparr>mev_type = None, mev_contract = Some ''B'', profit_usd = Some (2::int)\<rparr> = None
   \<and> \<lparr>mev_type = None, mev_contract = Some ''B'', profit_usd = Some (2::int)\<rparr>
     \<in> set (filter_mev_types
          [\<lparr>mev_type = Some ''Unknown'', mev_contract = Some ''A'', profit_usd = Some 1\<rparr>,
           \<lparr>mev_type = None, mev_contract = Some ''B'', profit_usd = Some 2\<rparr>])"
proof -
  let ?r = "\<lparr>mev_type = None, mev_contract = Some ''B'', profit_usd = Some (2::int)\<rparr>"
  let ?df = "[\<lparr>mev_type = Some ''Unknown'', mev_contract = Some ''A'', profit_usd = Some 1\<rparr>, ?r]"
  have in_df: "?r \<in> set ?df" and null: "mev_type ?r = None"
    by simp_all
  from null_mev_type_retained [OF in_df null] in_df null show ?thesis
    by simp
qed

text \<open>
  C2. Every row of the filtered table is a row of the input, and no row of the filtered
  table has \<open>mev_type\<close> equal to \<open>SearcherTx\<close> or \<open>Unknown\<close>.
\<close>

theorem filtered_subset_and_excluded:
  "set (filter_mev_types bundles_df) \<subseteq> set bundles_df
   \<and> (\<forall>r \<in> set (filter_mev_types bundles_df).
        mev_type r \<noteq> Some ''SearcherTx'' \<and> mev_type r \<noteq> Some ''Unknown'')"
  by (auto simp: filter_mev_types_eq)

theorem filtered_subset_and_excluded_witness:
  "filter_mev_types
     [\<lparr>mev_type = Some ''Backrun'', mev_contract = Some ''A'', profit_usd = Some (10::int)\<rparr>,
      \<lparr>mev_type = Some ''SearcherTx'', mev_contract = Some ''C'', profit_usd = Some 1000\<rparr>,
      \<lparr>mev_type = Some ''Unknown'', mev_contract = Some ''D'', profit_usd = Some 500\<rparr>]
   = [\<lparr>mev_type = Some ''Backrun'', mev_contract = Some ''A'', profit_usd = Some 10\<rparr>]"
  using filtered_subset_and_excluded
    [of "[\<lparr>mev_type = Some ''Backrun'', mev_contract = Some ''A'', profit_usd = Some (10::int)\<rparr>,
          \<lparr>mev_type = Some ''SearcherTx'', mev_contract = Some ''C'', profit_usd = Some 1000\<rparr>,
          \<lparr>mev_type = Some ''Unknown'', mev_contract = Some ''D'', profit_usd = Some 500\<rparr>]"]
  by (simp add: filter_mev_types_eq)

text \<open>
  C10. Filtering a filtered table changes nothing: the same rows in the same order.
\<close>

theorem filter_mev_types_idempotent:
  "filter_mev_types (filter_mev_types bundles_df) = filter_mev_types bundles_df"
  by (simp add: filter_mev_types_eq)

theorem filter_mev_types_idempotent_witness:
  "filter_mev_types (filter_mev_types
     [\<lparr>mev_type = Some ''Unknown'', mev_contract = Some ''D'', profit_usd = Some (500::int)\<rparr>,
      \<lparr>mev_type = Some ''Backrun'', mev_contract = None, profit_usd = None\<rparr>])
   = [\<lparr>mev_type = Some ''Backrun'', mev_contract = None, profit_usd = None\<rparr>]"
  using filter_mev_types_idempotent
    [of "[\<lparr>mev_type = Some ''Unknown'', mev_contract = Some ''D'', profit_usd = Some (500::int)\<rparr>,
          \<lparr>mev_type = Some ''Backrun'', mev_contract = None, profit_usd = None\<rparr>]"]
  by (simp add: filter_mev_types_eq)

section \<open>The aggregation\<close>

subsection \<open>Distinct keys and group orders\<close>

lemma set_unique: "set (unique ks) = set ks"
  by (simp add: unique_def)

lemma distinct_unique: "distinct (unique ks)"
  by (simp add: unique_def)

lemma length_unique: "length (unique ks) = card (set ks)"
  by (simp add: unique_def length_remdups_card_conv)

lemma unique_distinct: "distinct ks \<Longrightarrow> unique ks = ks"
  by (simp add: unique_def distinct_remdups_id)

lemma group_order_mset: "group_order_ok ord \<Longrightarrow> mset (ord ks) = mset ks"
  by (simp add: group_order_ok_def)

lemma group_order_length: "group_order_ok ord \<Longrightarrow> length (ord ks) = length ks"
  by (metis group_order_mset size_mset)

lemma group_order_distinct: "group_order_ok ord \<Longrightarrow> distinct (ord ks) = distinct ks"
  by (metis group_order_mset mset_eq_imp_distinct_iff)

text \<open>Two group orders: the order of first occurrence, and its reverse.\<close>

lemma group_order_ok_id: "group_order_ok id"
  by (simp add: group_order_ok_def)

lemma group_order_ok_rev: "group_order_ok rev"
  by (simp add: group_order_ok_def)

subsection \<open>The call chain, stage by stage\<close>

lemma agg_groupby:
  "agg c (groupby ord key df) = map (group_row key c df) (ord (unique (map key df)))"
  by (simp add: agg_def groupby_def group_row_def comp_def)

lemma total_group_row [simp]:
  "total_profit_usd (group_row key c df k) = sum_col (map c (filter (\<lambda>r. key r = k) df))"
  by (simp add: group_row_def)

lemma key_group_row [simp]: "searcher_row.mev_contract (group_row key c df k) = k"
  by (simp add: group_row_def)

lemma mset_sort_df: "mset (sort_df col reverse df) = mset df"
  by (simp add: sort_df_def)

lemma set_sort_df: "set (sort_df col reverse df) = set df"
  by (simp add: sort_df_def)

lemma length_sort_df: "length (sort_df col reverse df) = length df"
  by (simp add: sort_df_def)

lemma sorted_sort_df_reverse:
  "sorted_wrt (\<lambda>a b. col b \<le> col a) (sort_df col True df)"
proof -
  have "sorted (map col (sort_key col (rev df)))"
    by (rule sorted_sort_key)
  then have "sorted_wrt (\<lambda>a b. col a \<le> col b) (sort_key col (rev df))"
    by (simp add: sorted_map)
  then show ?thesis
    by (simp add: sort_df_def sorted_wrt_rev)
qed

lemma sort_df_sorted_id:
  assumes "sorted_wrt (\<lambda>a b. col b \<le> col a) df"
  shows "sort_df col True df = df"
proof -
  have "sorted (map col (rev df))"
    using assms by (simp add: sorted_map sorted_wrt_rev)
  then show ?thesis
    by (simp add: sort_df_def sort_key_id_if_sorted)
qed

lemma top_eq:
  "get_top_searchers_by_pnl ord df =
     take 30 (sort_df total_profit_usd True
       (map (group_row bundle_row.mev_contract profit_usd df)
         (ord (unique (map bundle_row.mev_contract df)))))"
  by (simp add: get_top_searchers_by_pnl_def head_def agg_groupby)

lemma top_length: "length (get_top_searchers_by_pnl ord df) \<le> 30"
  by (simp add: top_eq)

lemma top_sorted:
  "sorted_wrt (\<lambda>a b. total_profit_usd b \<le> total_profit_usd a) (get_top_searchers_by_pnl ord df)"
  unfolding top_eq by (intro sorted_wrt_take sorted_sort_df_reverse)

lemma top_distinct_keys:
  assumes "group_order_ok ord"
  shows "distinct (map searcher_row.mev_contract (get_top_searchers_by_pnl ord df))"
proof -
  let ?rows = "map (group_row bundle_row.mev_contract profit_usd df)
                 (ord (unique (map bundle_row.mev_contract df)))"
  have "map searcher_row.mev_contract ?rows = ord (unique (map bundle_row.mev_contract df))"
    by (simp add: comp_def)
  then have "distinct (map searcher_row.mev_contract ?rows)"
    by (simp add: group_order_distinct [OF assms] distinct_unique)
  then have "distinct (map searcher_row.mev_contract (sort_df total_profit_usd True ?rows))"
    by (metis mset_sort_df mset_map mset_eq_imp_distinct_iff)
  then have "distinct (take 30 (map searcher_row.mev_contract (sort_df total_profit_usd True ?rows)))"
    by (rule distinct_take)
  then show ?thesis
    by (simp only: top_eq take_map)
qed

subsection \<open>Sums with null cells\<close>

lemma sum_col_conv: "sum_col vs = (\<Sum>v\<leftarrow>vs. case v of None \<Rightarrow> 0 | Some x \<Rightarrow> x)"
  by (induction vs rule: sum_col.induct) simp_all

lemma sum_col_non_null:
  "sum_col (map c rows) = (\<Sum>x\<leftarrow>filter (\<lambda>x. c x \<noteq> None) rows. the (c x))"
proof (induction rows)
  case Nil
  show ?case by simp
next
  case (Cons x rows)
  then show ?case by (cases "c x") simp_all
qed

lemma sum_list_once:
  fixes a :: "'n::comm_monoid_add"
  assumes "distinct ks" and "k0 \<in> set ks"
  shows "(\<Sum>k\<leftarrow>ks. if k0 = k then a else 0) = a"
  using assms
proof (induction ks)
  case Nil
  then show ?case by simp
next
  case (Cons k ks)
  show ?case
  proof (cases "k0 = k")
    case True
    with Cons.prems have "k0 \<notin> set ks" by simp
    then have "(\<Sum>k\<leftarrow>ks. if k0 = k then a else 0) = 0"
      by (induction ks) auto
    with True show ?thesis by simp
  next
    case False
    with Cons show ?thesis by simp
  qed
qed

text \<open>
  Summing group by group is summing the whole column, when every key of the table is
  among the distinct keys \<open>ks\<close>.
\<close>

lemma group_sums:
  fixes c :: "'r \<Rightarrow> ('n::comm_monoid_add) option"
  assumes "distinct ks" and "key ` set df \<subseteq> set ks"
  shows "(\<Sum>k\<leftarrow>ks. sum_col (map c (filter (\<lambda>r. key r = k) df))) = sum_col (map c df)"
  using assms(2)
proof (induction df)
  case Nil
  show ?case by simp
next
  case (Cons r df)
  let ?w = "sum_col [c r]"
  have split: "sum_col (map c (filter (\<lambda>x. key x = k) (r # df)))
      = (if key r = k then ?w else 0) + sum_col (map c (filter (\<lambda>x. key x = k) df))" for k
    by (cases "c r") simp_all
  have "(\<Sum>k\<leftarrow>ks. sum_col (map c (filter (\<lambda>x. key x = k) (r # df))))
      = (\<Sum>k\<leftarrow>ks. if key r = k then ?w else 0)
        + (\<Sum>k\<leftarrow>ks. sum_col (map c (filter (\<lambda>x. key x = k) df)))"
    by (simp only: split sum_list_addf)
  also have "(\<Sum>k\<leftarrow>ks. if key r = k then ?w else 0) = ?w"
    using assms(1) Cons.prems by (intro sum_list_once) auto
  also have "(\<Sum>k\<leftarrow>ks. sum_col (map c (filter (\<lambda>x. key x = k) df))) = sum_col (map c df)"
    using Cons by simp
  also have "?w + sum_col (map c df) = sum_col (map c (r # df))"
    by (cases "c r") simp_all
  finally show ?case .
qed

lemma sum_list_perm:
  fixes f :: "'a \<Rightarrow> 'n::comm_monoid_add"
  assumes "mset xs = mset ys"
  shows "sum_list (map f xs) = sum_list (map f ys)"
proof -
  have "sum_list (map f xs) = sum_mset (image_mset f (mset xs))"
    by (metis mset_map sum_mset_sum_list)
  also have "\<dots> = sum_mset (image_mset f (mset ys))"
    by (simp add: assms)
  also have "\<dots> = sum_list (map f ys)"
    by (metis mset_map sum_mset_sum_list)
  finally show ?thesis .
qed

subsection \<open>Row count, sum, order and totals\<close>

text \<open>
  C3. The aggregation returns \<open>min 30 n\<close> rows, where \<open>n\<close> is the number of distinct
  \<open>mev_contract\<close> values of the input; the null key counts as one value.
\<close>

theorem top_searchers_row_count:
  assumes "group_order_ok ord"
  shows "length (get_top_searchers_by_pnl ord bundles_df)
           = min 30 (card (bundle_row.mev_contract ` set bundles_df))"
  using assms
  by (simp add: top_eq length_sort_df group_order_length length_unique min.commute)

theorem top_searchers_row_count_witness:
  "group_order_ok (rev :: string option group_order)
   \<and> card (bundle_row.mev_contract ` set example_nulls) = 3
   \<and> length (get_top_searchers_by_pnl rev example_nulls) = 3"
proof -
  have keys: "card (bundle_row.mev_contract ` set example_nulls) = 3"
    unfolding set_map [symmetric] card_set by (simp add: example_nulls_def)
  from top_searchers_row_count [OF group_order_ok_rev, of example_nulls] keys group_order_ok_rev
  show ?thesis by simp
qed

lemma sum_col_Some:
  fixes xs :: "('n::comm_monoid_add) list"
  shows "sum_col (map Some xs) = sum_list xs"
  by (induction xs) simp_all

text \<open>
  C4, as stated: with fewer than 30 distinct \<open>mev_contract\<close> values, the totals of the
  output rows add up to the sum of \<open>profit_usd\<close> over the input rows. It fails for a
  \<^verbatim>\<open>Float64\<close> column, where every addition rounds and the order of the additions
  matters. In \<open>example_floats\<close> the totals are 29.41 for \<open>A\<close> and 47.64 for \<open>B\<close>; they add
  up to 77.05, while the column adds up to 77.05000000000001.
\<close>

theorem float_sum_counterexample:
  "group_order_ok (id :: string option group_order)
   \<and> card (bundle_row.mev_contract ` set example_floats) < 30
   \<and> get_top_searchers_by_pnl id example_floats
       = [\<lparr>mev_contract = Some ''B'',
            total_profit_usd = Float64 (3352366972623913 / 70368744177664)\<rparr>,
          \<lparr>mev_contract = Some ''A'',
            total_profit_usd = Float64 (8278179065060393 / 281474976710656)\<rparr>]
   \<and> sum_col (map (\<lambda>r. Some (total_profit_usd r)) (get_top_searchers_by_pnl id example_floats))
       = Float64 (5421911738889011 / 70368744177664)
   \<and> sum_col (map profit_usd example_floats) = Float64 (1355477934722253 / 17592186044416)
   \<and> sum_col (map (\<lambda>r. Some (total_profit_usd r)) (get_top_searchers_by_pnl id example_floats))
       \<noteq> sum_col (map profit_usd example_floats)"
proof -
  have keys: "card (bundle_row.mev_contract ` set example_floats) < 30"
    unfolding set_map [symmetric] card_set by (simp add: example_floats_def)
  have top: "get_top_searchers_by_pnl id example_floats
       = [\<lparr>mev_contract = Some ''B'',
            total_profit_usd = Float64 (3352366972623913 / 70368744177664)\<rparr>,
          \<lparr>mev_contract = Some ''A'',
            total_profit_usd = Float64 (8278179065060393 / 281474976710656)\<rparr>]"
    by code_simp
  have totals: "Float64 (3352366972623913 / 70368744177664)
      + (Float64 (8278179065060393 / 281474976710656) + 0)
      = Float64 (5421911738889011 / 70368744177664)"
    by code_simp
  have sum_totals: "sum_col (map (\<lambda>r. Some (total_profit_usd r))
      (get_top_searchers_by_pnl id example_floats)) = Float64 (5421911738889011 / 70368744177664)"
    unfolding top using totals by simp
  have sum_column: "sum_col (map profit_usd example_floats)
      = Float64 (1355477934722253 / 17592186044416)"
    by code_simp
  have "Float64 (5421911738889011 / 70368744177664)
      \<noteq> Float64 (1355477934722253 / 17592186044416)"
    by simp
  with group_order_ok_id keys top sum_totals sum_column show ?thesis
    by simp
qed

text \<open>
  The difference does not come from the order in which the model adds a column: added
  from the first cell to the last, the column of \<open>example_floats\<close> gives the same
  77.05000000000001.
\<close>

lemma float_column_left_to_right:
  "((float64_of (- 91 / 100) + float64_of (- 101 / 10)) + float64_of (3032 / 100))
     + float64_of (5774 / 100) = Float64 (1355477934722253 / 17592186044416)"
  by code_simp

text \<open>
  C4, amended. With fewer than 30 distinct \<open>mev_contract\<close> values and a \<open>profit_usd\<close>
  column of an exact number type (addition associative and commutative, as for
  integers and decimals), the totals of the output rows add up to the sum of
  \<open>profit_usd\<close> over the input rows, null cells adding nothing.
\<close>

theorem total_profit_sum_preserved:
  fixes bundles_df :: "('n::{comm_monoid_add, linorder}, 'z) bundle_row_scheme list"
  assumes "group_order_ok ord"
    and "card (bundle_row.mev_contract ` set bundles_df) < 30"
  shows "sum_col (map (\<lambda>r. Some (total_profit_usd r)) (get_top_searchers_by_pnl ord bundles_df))
           = sum_col (map profit_usd bundles_df)"
proof -
  let ?key = "bundle_row.mev_contract :: ('n, 'z) bundle_row_scheme \<Rightarrow> string option"
  let ?ks = "unique (map ?key bundles_df)"
  let ?rows = "map (group_row ?key profit_usd bundles_df) (ord ?ks)"
  have "length (sort_df total_profit_usd True ?rows) \<le> 30"
    using assms by (simp add: length_sort_df group_order_length length_unique)
  then have top: "get_top_searchers_by_pnl ord bundles_df = sort_df total_profit_usd True ?rows"
    by (simp add: top_eq)
  have "sum_col (map (\<lambda>r. Some (total_profit_usd r)) (get_top_searchers_by_pnl ord bundles_df))
      = sum_list (map total_profit_usd (get_top_searchers_by_pnl ord bundles_df))"
    using sum_col_Some [of "map total_profit_usd (get_top_searchers_by_pnl ord bundles_df)"]
    by (simp add: comp_def)
  also have "\<dots> = sum_list (map total_profit_usd ?rows)"
    unfolding top by (rule sum_list_perm) (rule mset_sort_df)
  also have "\<dots> = (\<Sum>k\<leftarrow>ord ?ks. sum_col (map profit_usd (filter (\<lambda>r. ?key r = k) bundles_df)))"
    by (simp add: comp_def)
  also have "\<dots> = (\<Sum>k\<leftarrow>?ks. sum_col (map profit_usd (filter (\<lambda>r. ?key r = k) bundles_df)))"
    by (rule sum_list_perm) (rule group_order_mset [OF assms(1)])
  also have "\<dots> = sum_col (map profit_usd bundles_df)"
    by (rule group_sums) (simp_all add: distinct_unique set_unique)
  finally show ?thesis .
qed

theorem total_profit_sum_preserved_witness:
  "group_order_ok (rev :: string option group_order)
   \<and> card (bundle_row.mev_contract ` set example_nulls) < 30
   \<and> sum_col (map profit_usd example_nulls) = 14
   \<and> sum_col (map (\<lambda>r. Some (total_profit_usd r)) (get_top_searchers_by_pnl rev example_nulls))
       = 14"
proof -
  have few: "card (bundle_row.mev_contract ` set example_nulls) < 30"
    unfolding set_map [symmetric] card_set by (simp add: example_nulls_def)
  have input: "sum_col (map profit_usd example_nulls) = 14"
    by (simp add: example_nulls_def)
  from total_profit_sum_preserved [OF group_order_ok_rev few] few input group_order_ok_rev
  show ?thesis by simp
qed

text \<open>
  C6. The output is in descending order of \<open>total_profit_usd\<close>: of two adjacent rows, the
  first has the greater or equal total.
\<close>

theorem top_searchers_sorted_descending:
  assumes "Suc i < length (get_top_searchers_by_pnl ord bundles_df)"
  shows "total_profit_usd (get_top_searchers_by_pnl ord bundles_df ! Suc i)
           \<le> total_profit_usd (get_top_searchers_by_pnl ord bundles_df ! i)"
proof -
  have "sorted_wrt (\<lambda>a b. total_profit_usd b \<le> total_profit_usd a)
          (get_top_searchers_by_pnl ord bundles_df)"
    by (rule top_sorted)
  from sorted_wrt_nth_less [OF this _ assms, of i] show ?thesis
    by simp
qed

theorem top_searchers_sorted_descending_witness:
  "Suc 1 < length (get_top_searchers_by_pnl id example_nulls)
   \<and> get_top_searchers_by_pnl id example_nulls ! 1 = \<lparr>mev_contract = Some ''B'', total_profit_usd = 7\<rparr>
   \<and> get_top_searchers_by_pnl id example_nulls ! Suc 1 = \<lparr>mev_contract = Some ''A'', total_profit_usd = 0\<rparr>
   \<and> total_profit_usd (get_top_searchers_by_pnl id example_nulls ! Suc 1)
       \<le> total_profit_usd (get_top_searchers_by_pnl id example_nulls ! 1)"
proof -
  have top: "get_top_searchers_by_pnl id example_nulls =
      [\<lparr>mev_contract = None, total_profit_usd = 7\<rparr>,
       \<lparr>mev_contract = Some ''B'', total_profit_usd = 7\<rparr>,
       \<lparr>mev_contract = Some ''A'', total_profit_usd = 0\<rparr>]"
    by (simp add: example_nulls_def top_eq unique_def sort_df_def group_row_def)
  have len: "Suc 1 < length (get_top_searchers_by_pnl id example_nulls)"
    by (simp add: top)
  from top_searchers_sorted_descending [OF len] len show ?thesis
    by (simp add: top)
qed

text \<open>
  C7. The total of an output row is the sum of the non-null \<open>profit_usd\<close> values of the
  input rows that share its \<open>mev_contract\<close>; when all of them are null, the total is 0.
\<close>

theorem total_is_sum_of_non_null_profits:
  assumes "r \<in> set (get_top_searchers_by_pnl ord bundles_df)"
  shows "total_profit_usd r
      = (\<Sum>x\<leftarrow>filter (\<lambda>x. bundle_row.mev_contract x = searcher_row.mev_contract r
                          \<and> profit_usd x \<noteq> None) bundles_df.
           the (profit_usd x))
    \<and> ((\<forall>x\<in>set bundles_df. bundle_row.mev_contract x = searcher_row.mev_contract r
            \<longrightarrow> profit_usd x = None)
        \<longrightarrow> total_profit_usd r = 0)"
proof -
  from assms have "r \<in> set (sort_df total_profit_usd True
      (map (group_row bundle_row.mev_contract profit_usd bundles_df)
        (ord (unique (map bundle_row.mev_contract bundles_df)))))"
    unfolding top_eq by (rule in_set_takeD)
  then obtain k where "r = group_row bundle_row.mev_contract profit_usd bundles_df k"
    by (auto simp: set_sort_df)
  then have total: "total_profit_usd r
      = (\<Sum>x\<leftarrow>filter (\<lambda>x. bundle_row.mev_contract x = searcher_row.mev_contract r
                          \<and> profit_usd x \<noteq> None) bundles_df.
           the (profit_usd x))"
    by (simp add: sum_col_non_null conj_commute)
  have "total_profit_usd r = 0"
    if "\<forall>x\<in>set bundles_df. bundle_row.mev_contract x = searcher_row.mev_contract r
          \<longrightarrow> profit_usd x = None"
  proof -
    from that have "filter (\<lambda>x. bundle_row.mev_contract x = searcher_row.mev_contract r
        \<and> profit_usd x \<noteq> None) bundles_df = []"
      by (auto simp: filter_empty_conv)
    with total show ?thesis by simp
  qed
  with total show ?thesis by blast
qed

theorem total_is_sum_of_non_null_profits_witness:
  "\<lparr>mev_contract = None, total_profit_usd = 7\<rparr> \<in> set (get_top_searchers_by_pnl id example_nulls)
   \<and> map profit_usd (filter (\<lambda>x. bundle_row.mev_contract x = None) example_nulls) = [Some 7, None]
   \<and> \<lparr>mev_contract = Some ''A'', total_profit_usd = 0\<rparr> \<in> set (get_top_searchers_by_pnl id example_nulls)
   \<and> map profit_usd (filter (\<lambda>x. bundle_row.mev_contract x = Some ''A'') example_nulls) = [None]"
proof -
  let ?r = "\<lparr>mev_contract = None, total_profit_usd = 7::int\<rparr>"
  have top: "get_top_searchers_by_pnl id example_nulls =
      [?r, \<lparr>mev_contract = Some ''B'', total_profit_usd = 7\<rparr>,
       \<lparr>mev_contract = Some ''A'', total_profit_usd = 0\<rparr>]"
    by (simp add: example_nulls_def top_eq unique_def sort_df_def group_row_def)
  have row: "?r \<in> set (get_top_searchers_by_pnl id example_nulls)"
    by (simp add: top)
  from total_is_sum_of_non_null_profits [OF row] show ?thesis
    by (simp add: top) (simp add: example_nulls_def)
qed

text \<open>
  C8. On the empty bundle table the aggregation returns the empty table. The model's
  function is total: there is no error result to return.
\<close>

theorem empty_table_empty_output:
  assumes "group_order_ok ord"
  shows "get_top_searchers_by_pnl ord [] = []"
  using group_order_mset [OF assms, of "[]"]
  by (simp add: top_eq unique_def sort_df_def)

theorem empty_table_empty_output_witness:
  "group_order_ok (rev :: string option group_order)
   \<and> get_top_searchers_by_pnl rev ([] :: int bundle_row list) = []"
  using empty_table_empty_output [OF group_order_ok_rev] group_order_ok_rev
  by simp

subsection \<open>Aggregating the aggregation's result\<close>

lemma filter_distinct_key:
  assumes "distinct (map f xs)" and "x \<in> set xs"
  shows "filter (\<lambda>y. f y = f x) xs = [x]"
  using assms
proof (induction xs)
  case Nil
  then show ?case by simp
next
  case (Cons y ys)
  show ?case
  proof (cases "x = y")
    case True
    from Cons.prems(1) have "\<forall>z\<in>set ys. f z \<noteq> f y"
      by (auto simp: image_iff)
    then have "filter (\<lambda>z. f z = f y) ys = []"
      by (simp add: filter_empty_conv)
    with True show ?thesis by simp
  next
    case False
    with Cons.prems have "x \<in> set ys" and "f y \<noteq> f x" by auto
    with Cons show ?thesis by simp
  qed
qed

lemma keys_as_bundles:
  "map bundle_row.mev_contract (as_bundles out) = map searcher_row.mev_contract out"
  by (simp add: as_bundles_def comp_def)

text \<open>
  In a table with one row per key, the group of a row's key is that row alone, and its
  sum is the row's own total: aggregating gives the row back.
\<close>

lemma group_row_as_bundles:
  fixes out :: "('n::comm_monoid_add) searcher_row list"
  assumes "distinct (map searcher_row.mev_contract out)" and "r \<in> set out"
  shows "group_row bundle_row.mev_contract profit_usd (as_bundles out)
           (searcher_row.mev_contract r) = r"
proof -
  have "filter (\<lambda>x. bundle_row.mev_contract x = searcher_row.mev_contract r) (as_bundles out)
      = map (\<lambda>r. \<lparr>mev_type = None, mev_contract = searcher_row.mev_contract r,
               profit_usd = Some (total_profit_usd r)\<rparr>)
          (filter (\<lambda>y. searcher_row.mev_contract y = searcher_row.mev_contract r) out)"
    by (simp add: as_bundles_def filter_map comp_def)
  also have "\<dots> = [\<lparr>mev_type = None, mev_contract = searcher_row.mev_contract r,
               profit_usd = Some (total_profit_usd r)\<rparr>]"
    by (simp add: filter_distinct_key [OF assms])
  finally show ?thesis
    by (simp add: group_row_def)
qed

lemma reaggregate_rows:
  fixes out :: "('n::comm_monoid_add) searcher_row list"
  assumes "distinct (map searcher_row.mev_contract out)"
  shows "map (group_row bundle_row.mev_contract profit_usd (as_bundles out))
           (map searcher_row.mev_contract out) = out"
  using group_row_as_bundles [OF assms] by (simp add: map_idI)


text \<open>
  Two tables with the same rows, both in descending order of a column whose values are
  pairwise distinct, are the same table.
\<close>

lemma sorted_desc_unique:
  fixes f :: "'a \<Rightarrow> 'n::linorder"
  assumes "mset xs = mset ys"
    and "sorted_wrt (\<lambda>a b. f b \<le> f a) xs" and "sorted_wrt (\<lambda>a b. f b \<le> f a) ys"
    and "distinct (map f xs)"
  shows "xs = ys"
proof -
  have set_eq: "set xs = set ys"
    using assms(1) by (rule mset_eq_setD)
  have dys: "distinct (map f ys)"
    using assms(1,4) by (metis mset_map mset_eq_imp_distinct_iff)
  have "rev xs = rev ys"
  proof (rule map_sorted_distinct_set_unique [where f = f])
    show "inj_on f (set (rev xs) \<union> set (rev ys))"
      using assms(4) set_eq by (simp add: distinct_map)
    show "sorted (map f (rev xs))"
      using assms(2) by (simp add: sorted_map sorted_wrt_rev)
    show "sorted (map f (rev ys))"
      using assms(3) by (simp add: sorted_map sorted_wrt_rev)
    show "distinct (map f (rev xs))"
      using assms(4) by (simp add: rev_map [symmetric])
    show "distinct (map f (rev ys))"
      using dys by (simp add: rev_map [symmetric])
    show "set (rev xs) = set (rev ys)"
      using set_eq by simp
  qed
  then show ?thesis by simp
qed




text \<open>
  When the library returns the groups in the order of the rows, the order is kept with
  ties as well: the sort is stable and finds the table sorted.
\<close>

lemma first_seen_idempotent:
  fixes bundles_df :: "('n::{comm_monoid_add, linorder}, 'z) bundle_row_scheme list"
  shows "get_top_searchers_by_pnl id (as_bundles (get_top_searchers_by_pnl id bundles_df))
     = get_top_searchers_by_pnl id bundles_df"
proof -
  let ?out = "get_top_searchers_by_pnl id bundles_df"
  have keys: "distinct (map searcher_row.mev_contract ?out)"
    by (rule top_distinct_keys [OF group_order_ok_id])
  have "get_top_searchers_by_pnl id (as_bundles ?out)
      = take 30 (sort_df total_profit_usd True
          (map (group_row bundle_row.mev_contract profit_usd (as_bundles ?out))
            (map searcher_row.mev_contract ?out)))"
    by (simp only: top_eq [of id "as_bundles ?out"] keys_as_bundles unique_distinct [OF keys]
        id_apply)
  also have "\<dots> = take 30 (sort_df total_profit_usd True ?out)"
    by (simp only: reaggregate_rows [OF keys])
  also have "\<dots> = take 30 ?out"
    by (simp only: sort_df_sorted_id [OF top_sorted])
  also have "\<dots> = ?out"
    using top_length [of id bundles_df] by simp
  finally show ?thesis .
qed

subsection \<open>The order of the groups and the result\<close>

text \<open>
  When no two groups have the same total, the result does not depend on the order in
  which the library returns the groups: the sort puts the rows in the one descending
  order there is.
\<close>

lemma top_order_independent:
  assumes ok1: "group_order_ok ord1" and ok2: "group_order_ok ord2"
    and no_ties: "distinct (map total_profit_usd
                    (agg profit_usd (groupby ord1 bundle_row.mev_contract df)))"
  shows "get_top_searchers_by_pnl ord1 df = get_top_searchers_by_pnl ord2 df"
proof -
  let ?g = "group_row bundle_row.mev_contract profit_usd df"
  let ?ks = "unique (map bundle_row.mev_contract df)"
  let ?rows1 = "map ?g (ord1 ?ks)" and ?rows2 = "map ?g (ord2 ?ks)"
  have "mset (ord1 ?ks) = mset (ord2 ?ks)"
    by (simp add: group_order_mset [OF ok1] group_order_mset [OF ok2])
  then have "image_mset ?g (mset (ord1 ?ks)) = image_mset ?g (mset (ord2 ?ks))"
    by (rule arg_cong)
  then have rows: "mset ?rows1 = mset ?rows2"
    by simp
  then have sorted_rows: "mset (sort_df total_profit_usd True ?rows1)
      = mset (sort_df total_profit_usd True ?rows2)"
    by (simp only: mset_sort_df)
  from no_ties have "distinct (map total_profit_usd ?rows1)"
    by (simp only: agg_groupby)
  then have "distinct (map total_profit_usd (sort_df total_profit_usd True ?rows1))"
    by (metis mset_sort_df mset_map mset_eq_imp_distinct_iff)
  with sorted_rows sorted_sort_df_reverse sorted_sort_df_reverse
  have "sort_df total_profit_usd True ?rows1 = sort_df total_profit_usd True ?rows2"
    by (rule sorted_desc_unique)
  then show ?thesis
    by (simp only: top_eq)
qed

section \<open>The main block\<close>

lemma main_loaded:
  "main ord (Parquet blocks_df) (Parquet bundles_df) =
     Inr \<lparr>filtered_bundles = filter_mev_types bundles_df,
          stdout = [Line ''Top 30 Searchers by PNL (excluding SearcherTx and Unknown MEV types):'',
                    Frame (get_top_searchers_by_pnl ord (filter_mev_types bundles_df))]\<rparr>"
  by (simp add: main_def read_data_def Let_def)

lemma main_blocks_unreadable:
  "read_parquet block_table = Inl e \<Longrightarrow> main ord block_table bundle_table = Inl e"
  by (simp add: main_def read_data_def)

lemma main_bundles_unreadable:
  "read_parquet bundle_table = Inl e \<Longrightarrow> main ord (Parquet blocks_df) bundle_table = Inl e"
  by (simp add: main_def read_data_def)

lemma loaded_is_parquet: "read_parquet stored = Inr df \<Longrightarrow> stored = Parquet df"
  by (cases stored) simp_all

text \<open>
  C9, as stated: what a run prints depends on the bundle table alone, whatever the block
  file holds. It fails in two ways. When the block file cannot be read, \<open>read_data\<close>,
  which reads it first, raises: the run ends with the error and nothing is filtered or
  printed. And of two runs on the same files, both loading, the printed tables differ
  when two groups have the same total and the library returns the groups in one order
  in the first run and in another in the second: in \<open>example_nulls\<close> the null key and
  \<open>B\<close> both total 7.
\<close>

theorem block_file_unreadable_counterexample:
  "main id (Malformed :: nat list parquet_file) (Parquet example_bundles) = Inl ParquetError
   \<and> main id (Malformed :: nat list parquet_file) (Parquet example_bundles)
       \<noteq> main id (Parquet ([] :: nat list)) (Parquet example_bundles)
   \<and> group_order_ok (id :: string option group_order)
   \<and> group_order_ok (rev :: string option group_order)
   \<and> main id (Parquet ([] :: nat list)) (Parquet example_nulls)
       = Inr \<lparr>filtered_bundles = example_nulls,
              stdout = [Line ''Top 30 Searchers by PNL (excluding SearcherTx and Unknown MEV types):'',
                        Frame [\<lparr>mev_contract = None, total_profit_usd = 7\<rparr>,
                               \<lparr>mev_contract = Some ''B'', total_profit_usd = 7\<rparr>,
                               \<lparr>mev_contract = Some ''A'', total_profit_usd = 0\<rparr>]]\<rparr>
   \<and> main rev (Parquet ([] :: nat list)) (Parquet example_nulls)
       = Inr \<lparr>filtered_bundles = example_nulls,
              stdout = [Line ''Top 30 Searchers by PNL (excluding SearcherTx and Unknown MEV types):'',
                        Frame [\<lparr>mev_contract = Some ''B'', total_profit_usd = 7\<rparr>,
                               \<lparr>mev_contract = None, total_profit_usd = 7\<rparr>,
                               \<lparr>mev_contract = Some ''A'', total_profit_usd = 0\<rparr>]]\<rparr>
   \<and> main id (Parquet ([] :: nat list)) (Parquet example_nulls)
       \<noteq> main rev (Parquet ([] :: nat list)) (Parquet example_nulls)"
proof -
  have unreadable: "main id (Malformed :: nat list parquet_file) (Parquet example_bundles)
      = Inl ParquetError"
    by (simp add: main_blocks_unreadable)
  have loaded: "main id (Parquet ([] :: nat list)) (Parquet example_bundles) \<noteq> Inl ParquetError"
    by (simp add: main_loaded)
  have kept: "filter_mev_types example_nulls = example_nulls"
    by (simp add: example_nulls_def filter_mev_types_eq)
  have top_id: "get_top_searchers_by_pnl id example_nulls =
      [\<lparr>mev_contract = None, total_profit_usd = 7\<rparr>,
       \<lparr>mev_contract = Some ''B'', total_profit_usd = 7\<rparr>,
       \<lparr>mev_contract = Some ''A'', total_profit_usd = 0\<rparr>]"
    by (simp add: example_nulls_def top_eq unique_def sort_df_def group_row_def)
  have top_rev: "get_top_searchers_by_pnl rev example_nulls =
      [\<lparr>mev_contract = Some ''B'', total_profit_usd = 7\<rparr>,
       \<lparr>mev_contract = None, total_profit_usd = 7\<rparr>,
       \<lparr>mev_contract = Some ''A'', total_profit_usd = 0\<rparr>]"
    by (simp add: example_nulls_def top_eq unique_def sort_df_def group_row_def)
  from unreadable loaded group_order_ok_id group_order_ok_rev show ?thesis
    by (simp add: main_loaded kept top_id top_rev)
qed

text \<open>
  C9, amended. Take two runs whose block files both load and whose bundle files hold
  the same table. The filtered table is the same in both, and so is the error when the
  bundle file cannot be read. The printed values are the same when the library returns
  the groups in the same order in both runs, and also, whatever the two orders, when
  no two groups have the same total. The block tables may differ in content and in
  schema. A run whose block file cannot be read, being missing or not a parquet file,
  ends with that error.
\<close>

theorem block_table_unused:
  "(read_parquet block_table1 = Inr blocks_df1 \<and> read_parquet block_table2 = Inr blocks_df2
      \<longrightarrow> map_sum id filtered_bundles (main ord1 block_table1 bundle_table)
            = map_sum id filtered_bundles (main ord2 block_table2 bundle_table)
        \<and> main ord1 block_table1 bundle_table = main ord1 block_table2 bundle_table
        \<and> (group_order_ok ord1 \<and> group_order_ok ord2
            \<and> distinct (map total_profit_usd (agg profit_usd
                 (groupby ord1 bundle_row.mev_contract (filter_mev_types bundles_df))))
            \<longrightarrow> main ord1 block_table1 (Parquet bundles_df)
                  = main ord2 block_table2 (Parquet bundles_df)))
   \<and> (read_parquet block_table = Inl e \<longrightarrow> main ord block_table bundle_table = Inl e)"
proof (intro conjI impI)
  assume loads: "read_parquet block_table1 = Inr blocks_df1
    \<and> read_parquet block_table2 = Inr blocks_df2"
  then have files: "block_table1 = Parquet blocks_df1" "block_table2 = Parquet blocks_df2"
    by (simp_all add: loaded_is_parquet)
  show "map_sum id filtered_bundles (main ord1 block_table1 bundle_table)
      = map_sum id filtered_bundles (main ord2 block_table2 bundle_table)"
    unfolding files by (cases bundle_table) (simp_all add: main_loaded main_bundles_unreadable)
  show "main ord1 block_table1 bundle_table = main ord1 block_table2 bundle_table"
    unfolding files by (cases bundle_table) (simp_all add: main_loaded main_bundles_unreadable)
  assume "group_order_ok ord1 \<and> group_order_ok ord2
    \<and> distinct (map total_profit_usd (agg profit_usd
         (groupby ord1 bundle_row.mev_contract (filter_mev_types bundles_df))))"
  then have "get_top_searchers_by_pnl ord1 (filter_mev_types bundles_df)
      = get_top_searchers_by_pnl ord2 (filter_mev_types bundles_df)"
    by (intro top_order_independent) simp_all
  then show "main ord1 block_table1 (Parquet bundles_df) = main ord2 block_table2 (Parquet bundles_df)"
    unfolding files by (simp add: main_loaded)
next
  assume "read_parquet block_table = Inl e"
  then show "main ord block_table bundle_table = Inl e"
    by (rule main_blocks_unreadable)
qed

theorem block_table_unused_witness:
  "read_parquet (Parquet [1, 2 :: nat]) = Inr [1, 2]
   \<and> read_parquet (Parquet ''blocks'') = Inr ''blocks''
   \<and> group_order_ok (id :: string option group_order)
   \<and> group_order_ok (rev :: string option group_order)
   \<and> map total_profit_usd (agg profit_usd
        (groupby id bundle_row.mev_contract (filter_mev_types example_bundles))) = [15, 100]
   \<and> main id (Parquet [1, 2 :: nat]) (Parquet example_bundles)
       = main rev (Parquet ''blocks'') (Parquet example_bundles)
   \<and> main rev (Parquet ''blocks'') (Parquet example_bundles)
       = Inr \<lparr>filtered_bundles = take 3 example_bundles,
              stdout = [Line ''Top 30 Searchers by PNL (excluding SearcherTx and Unknown MEV types):'',
                        Frame [\<lparr>mev_contract = Some ''B'', total_profit_usd = 100\<rparr>,
                               \<lparr>mev_contract = Some ''A'', total_profit_usd = 15\<rparr>]]\<rparr>
   \<and> read_parquet (Missing :: nat list parquet_file) = Inl FileNotFoundError
   \<and> main rev (Missing :: nat list parquet_file) (Parquet example_bundles) = Inl FileNotFoundError"
proof -
  have loads: "read_parquet (Parquet [1, 2 :: nat]) = Inr [1, 2]
      \<and> read_parquet (Parquet ''blocks'') = Inr ''blocks''"
    by simp
  have totals: "map total_profit_usd (agg profit_usd
      (groupby id bundle_row.mev_contract (filter_mev_types example_bundles))) = [15, 100]"
    by (simp add: example_bundles_def filter_mev_types_eq agg_groupby unique_def group_row_def)
  have orders: "group_order_ok (id :: string option group_order)
      \<and> group_order_ok (rev :: string option group_order)
      \<and> distinct (map total_profit_usd (agg profit_usd
           (groupby id bundle_row.mev_contract (filter_mev_types example_bundles))))"
    by (simp add: group_order_ok_id group_order_ok_rev totals)
  have missing: "read_parquet (Missing :: nat list parquet_file) = Inl FileNotFoundError"
    by simp
  have run: "main rev (Parquet ''blocks'') (Parquet example_bundles)
       = Inr \<lparr>filtered_bundles = take 3 example_bundles,
              stdout = [Line ''Top 30 Searchers by PNL (excluding SearcherTx and Unknown MEV types):'',
                        Frame [\<lparr>mev_contract = Some ''B'', total_profit_usd = 100\<rparr>,
                               \<lparr>mev_contract = Some ''A'', total_profit_usd = 15\<rparr>]]\<rparr>"
    by (simp add: main_loaded example_bundles_def filter_mev_types_eq top_eq unique_def
        sort_df_def group_row_def)
  from block_table_unused [where ?block_table1.0 = "Parquet [1, 2 :: nat]"
      and ?blocks_df1.0 = "[1, 2]" and ?block_table2.0 = "Parquet ''blocks''"
      and ?blocks_df2.0 = "''blocks''" and ?ord1.0 = id and ?ord2.0 = rev
      and bundles_df = example_bundles and bundle_table = "Parquet example_bundles"
      and block_table = "Missing :: nat list parquet_file" and e = FileNotFoundError
      and ord = rev]
    loads orders missing
  have "main id (Parquet [1, 2 :: nat]) (Parquet example_bundles)
       = main rev (Parquet ''blocks'') (Parquet example_bundles)"
    and "main rev (Missing :: nat list parquet_file) (Parquet example_bundles)
       = Inl FileNotFoundError"
    by blast+
  with loads orders totals missing run show ?thesis
    by blast
qed


end
